theory Spec2Isabelle
  imports Main
begin

section \<open>docker-events: a shallow embedding of \<open>src/index.ts\<close>\<close>

text \<open>
  The class \<open>DockerEventEmitter\<close> extends the Node.js \<open>EventEmitter\<close>. It spawns
  \<open>docker events\<close>, decodes the newline-delimited JSON on the child's standard output and
  republishes each record through an overridden \<open>emit\<close>; a directory watcher on
  \<open>/var/run\<close> stops and restarts the child when the daemon socket goes and comes back.

  Conventions of the model:
  \<^item> strings are \<open>char list\<close>s (the UTF-8 bytes of the text; a line feed is one byte and
    never part of a multi-byte sequence);
  \<^item> the private fields \<open>#cmd\<close>, \<open>#watcher\<close>, \<open>#data\<close>, \<open>#lastSeen\<close>, \<open>#filters\<close>
    and the inherited listener table are fields of the record \<open>emitter\<close>; the child
    processes live in an explicit store (a list, a handle is an index), because
    \<open>#cmd\<close> is a reference to an object that the operating system also changes;
  \<^item> \<open>JSON.parse\<close> is a builtin of the platform: every function that calls it takes the
    parser as its first argument \<open>parse\<close>, \<open>None\<close> standing for the \<open>SyntaxError\<close>;
  \<^item> a listener is an opaque callable named by a number. Calling it is recorded in a trace
    of deliveries; it returns normally and does not touch the emitter.
\<close>

subsection \<open>JSON values and the coercions JavaScript applies to them\<close>

text \<open>
  The value \<open>JSON.parse\<close> returns. A number is kept as its decimal rendering
  (\<open>Number::toString\<close>), which is all the program ever uses of it; an object holds its
  own properties, one entry per key.
\<close>

datatype json =
    JNull
  | JBool bool
  | JNum string
  | JStr string
  | JArr "json list"
  | JObj "(string \<times> json) list"

text \<open>\<open>Array.prototype.join\<close> on strings.\<close>

fun join :: "string \<Rightarrow> string list \<Rightarrow> string" where
  "join sep [] = []"
| "join sep [x] = x"
| "join sep (x # y # ys) = x @ sep @ join sep (y # ys)"

text \<open>
  \<open>ToString\<close> of ECMAScript on such a value; \<open>None\<close> stands for the \<open>TypeError\<close> of a
  conversion that fails. A primitive value always converts. An object is converted by
  its \<open>toString\<close> method, then by its \<open>valueOf\<close> method: a parsed object inherits both
  from \<open>Object.prototype\<close>, and the result is \<open>[object Object]\<close>, unless it has a property
  of its own named \<open>toString\<close>. That property holds a JSON value, which cannot be called,
  and \<open>valueOf\<close> (inherited, or a JSON value as well) yields no primitive value: the
  conversion throws. An array is its elements joined by commas, \<open>null\<close> elements rendered
  empty, each other element converted in the same way, so it throws when one of them
  does.
\<close>

fun ToString :: "json \<Rightarrow> string option" where
  "ToString JNull = Some ''null''"
| "ToString (JBool b) = Some (if b then ''true'' else ''false'')"
| "ToString (JNum n) = Some n"
| "ToString (JStr s) = Some s"
| "ToString (JArr xs) =
     map_option (join '','')
       (those (map (\<lambda>x. if x = JNull then Some [] else ToString x) xs))"
| "ToString (JObj fs) =
     (if ''toString'' \<in> set (map fst fs) then None else Some ''[object Object]'')"

text \<open>
  An event type is any JavaScript value the callers pass: here a JSON value or
  \<open>undefined\<close> (\<open>None\<close>). The listener table is indexed by property keys, so the type is
  coerced with \<open>ToPropertyKey\<close>: \<open>undefined\<close> indexes the key \<open>"undefined"\<close>, and a value
  that does not convert has no key (the result \<open>None\<close>, a \<open>TypeError\<close> in the program).
\<close>

definition ToPropertyKey :: "json option \<Rightarrow> string option" where
  "ToPropertyKey v = (case v of None \<Rightarrow> Some ''undefined'' | Some j \<Rightarrow> ToString j)"

text \<open>What the program can throw and catch.\<close>

datatype 'p thrown = SyntaxError | TypeError | UnhandledError 'p

text \<open>
  The property read \<open>json.Action\<close> (line 109): a \<open>TypeError\<close> on \<open>null\<close>, the property of
  an object when it has one, \<open>undefined\<close> in every other case.
\<close>

fun get_Action :: "json \<Rightarrow> json thrown + json option" where
  "get_Action JNull = Inl TypeError"
| "get_Action (JObj fs) = Inr (map_of fs ''Action'')"
| "get_Action (JBool b) = Inr None"
| "get_Action (JNum n) = Inr None"
| "get_Action (JStr s) = Inr None"
| "get_Action (JArr xs) = Inr None"

subsection \<open>The inherited \<open>EventEmitter\<close>\<close>

type_synonym listener = nat

type_synonym listeners = "string \<Rightarrow> listener list"

record 'p delivery =
  pattern :: string
  target :: listener
  payload :: 'p

text \<open>
  The loop of \<open>EventEmitter.prototype.emit\<close> over the listeners of one key, in the order
  of the array, which is the order of registration.
\<close>

definition deliver :: "listeners \<Rightarrow> string \<Rightarrow> 'p \<Rightarrow> 'p delivery list" where
  "deliver evs k P = map (\<lambda>l. \<lparr>pattern = k, target = l, payload = P\<rparr>) (evs k)"

text \<open>
  \<open>EventEmitter.prototype.emit\<close> of Node.js, called as \<open>super.emit\<close> on lines 24 and 25:
  an event of type \<open>'error'\<close> (compared with \<open>===\<close>) that has no listener is thrown;
  otherwise the table is read at the type (\<open>events[type]\<close>), which throws a \<open>TypeError\<close>
  when the type has no property key; otherwise the listeners of the key are called and
  the result tells whether there were any.
\<close>

definition super_emit :: "listeners \<Rightarrow> json option \<Rightarrow> 'p \<Rightarrow> 'p delivery list \<times> ('p thrown + bool)" where
  "super_emit evs etype P =
     (if etype = Some (JStr ''error'') \<and> evs ''error'' = [] then ([], Inl (UnhandledError P))
      else
        case ToPropertyKey etype of
          None \<Rightarrow> ([], Inl TypeError)
        | Some k \<Rightarrow>
            if evs k = [] then ([], Inr False)
            else (deliver evs k P, Inr True))"

text \<open>
  \<open>EventEmitter.prototype.on\<close>: the listener is appended to the array of its key.
  (The \<open>newListener\<close> notification and the leak warning of Node.js are left out.)
\<close>

definition on :: "string \<Rightarrow> listener \<Rightarrow> listeners \<Rightarrow> listeners" where
  "on k l evs = evs(k := evs k @ [l])"

subsection \<open>\<open>DockerEventEmitter.emit\<close> (lines 23 to 26)\<close>

text \<open>
  \<open>super.emit('*', ...args); return super.emit(type, ...args) || super.emit('', ...args)\<close>.
  An exception of one call ends the method; \<open>||\<close> evaluates its right operand only when
  the left one is \<open>false\<close>.
\<close>

definition emit :: "listeners \<Rightarrow> json option \<Rightarrow> 'p \<Rightarrow> 'p delivery list \<times> ('p thrown + bool)" where
  "emit evs etype P =
     (case super_emit evs (Some (JStr ''*'')) P of
        (d1, Inl e) \<Rightarrow> (d1, Inl e)
      | (d1, Inr _) \<Rightarrow>
          (case super_emit evs etype P of
             (d2, Inl e) \<Rightarrow> (d1 @ d2, Inl e)
           | (d2, Inr True) \<Rightarrow> (d1 @ d2, Inr True)
           | (d2, Inr False) \<Rightarrow>
               (case super_emit evs (Some (JStr '''')) P of
                  (d3, r) \<Rightarrow> (d1 @ d2 @ d3, r))))"

subsection \<open>The emitter and the child processes\<close>

text \<open>
  A \<open>ChildProcess\<close> of Node.js, as far as the program reads and writes it: the command it
  was spawned with, the flag \<open>killed\<close> (set by a \<open>kill()\<close> that delivered its signal),
  whether the process has terminated, and the number of \<open>SIGTERM\<close>s sent to it.
\<close>

record child =
  command :: string
  shell :: bool
  killed :: bool
  exited :: bool
  sigterms :: nat

datatype log_entry =
    LogSpawning
  | LogEmitting json
  | LogCaught "json thrown" string

record emitter =
  cmd :: "nat option"
  watcher :: bool
  data :: string
  lastSeen :: "string option"
  filters :: "string list"
  events :: listeners
  children :: "child list"
  exitHooks :: nat
  logs :: "log_entry list"
  delivered :: "json delivery list"

text \<open>The constructor (lines 15 to 21); nothing is spawned, watched, logged or delivered yet.\<close>

definition constructor :: "string list \<Rightarrow> emitter" where
  "constructor fs =
     \<lparr>cmd = None, watcher = False, data = [], lastSeen = None, filters = fs,
      events = (\<lambda>k. []), children = [], exitHooks = 0, logs = [], delivered = []\<rparr>"

text \<open>
  \<open>ChildProcess.prototype.kill()\<close> with the default signal: a process that is still
  running is sent \<open>SIGTERM\<close> and flagged \<open>killed\<close>; on one that has terminated the call
  returns \<open>false\<close> and changes nothing. The call never waits for the process to go.
\<close>

definition kill :: "child \<Rightarrow> child" where
  "kill c = (if exited c then c else c\<lparr>killed := True, sigterms := Suc (sigterms c)\<rparr>)"

text \<open>
  \<open>spawn(command, { shell: true })\<close>: a new child object; it has not been signalled and
  (whether the launch succeeds or not) its termination is an event of its own.
\<close>

definition spawn :: "string \<Rightarrow> bool \<Rightarrow> child" where
  "spawn c sh = \<lparr>command = c, shell = sh, killed = False, exited = False, sigterms = 0\<rparr>"

text \<open>\<open>cleanup\<close> (lines 28 to 36).\<close>

definition cleanup :: "emitter \<Rightarrow> emitter" where
  "cleanup st =
     (case cmd st of
        None \<Rightarrow> st
      | Some h \<Rightarrow>
          if killed (children st ! h) then st
          else st\<lparr>children := (children st)[h := kill (children st ! h)]\<rparr>)"

text \<open>
  \<open>listen\<close> (lines 38 to 90). The callbacks it registers are the functions \<open>watchCallback\<close>
  and \<open>tryParseStdoutData\<close> below, run by \<open>step\<close> when their event arrives.
\<close>

definition listen :: "emitter \<Rightarrow> emitter" where
  "listen st =
     (let st1 = cleanup st;
          st2 = (if \<not> watcher st1 then st1\<lparr>watcher := True\<rparr> else st1);
          st3 = st2\<lparr>logs := logs st2 @ [LogSpawning]\<rparr>;
          filters' = join '' '' (map (\<lambda>filter. ''--filter '' @ filter) (filters st3));
          child = spawn (''docker events --format '{{json .}}' '' @ filters') True
      in st3\<lparr>cmd := Some (length (children st3)),
             children := children st3 @ [child],
             exitHooks := Suc (exitHooks st3)\<rparr>)"

text \<open>
  The callback of \<open>watch('/var/run', ...)\<close> (lines 46 to 66). Node.js passes the file name
  or \<open>null\<close>.
\<close>

definition watchCallback :: "string \<Rightarrow> string option \<Rightarrow> emitter \<Rightarrow> emitter" where
  "watchCallback event filename st =
     (if event \<noteq> ''rename'' then st
      else if filename \<noteq> Some ''docker.sock'' \<and> filename \<noteq> Some ''dockerd.pid'' then st
      else
        let st1 = (if lastSeen st = Some ''docker.sock'' \<and> filename = Some ''dockerd.pid''
                   then cleanup st else st);
            st2 = (if lastSeen st1 = Some ''dockerd.pid'' \<and> filename = Some ''docker.sock''
                   then listen st1 else st1)
        in st2\<lparr>lastSeen := filename\<rparr>)"

subsection \<open>The decoder (lines 92 to 117)\<close>

text \<open>
  \<open>data.split(/\n/)\<close>: the pieces between the line feeds, empty pieces included. The
  result is never empty, so the first branch of the \<open>case\<close> is never taken.
\<close>

fun split_newline :: "string \<Rightarrow> string list" where
  "split_newline [] = [[]]"
| "split_newline (c # cs) =
     (if c = CHR 0x0A then [] # split_newline cs
      else (case split_newline cs of
              [] \<Rightarrow> [[c]]
            | p # ps \<Rightarrow> (c # p) # ps))"

text \<open>
  \<open>tryParseStdoutData\<close>. The \<open>try\<close> block covers \<open>JSON.parse\<close>, the read of \<open>Action\<close>
  and the call of \<open>emit\<close>, so whatever one of them throws is caught and logged with the
  chunk; the buffer is cleared between the first and the second.
\<close>

function tryParseStdoutData :: "(string \<Rightarrow> json option) \<Rightarrow> string \<Rightarrow> emitter \<Rightarrow> emitter" where
  "tryParseStdoutData parse chunk st =
     (if chunk = [] then st
      else
        let strings = split_newline chunk in
        if length strings > 1 then fold (tryParseStdoutData parse) strings st
        else
          let st1 = st\<lparr>data := data st @ chunk\<rparr> in
          case parse (data st1) of
            None \<Rightarrow> st1\<lparr>logs := logs st1 @ [LogCaught SyntaxError chunk]\<rparr>
          | Some json \<Rightarrow>
              let st2 = st1\<lparr>data := []\<rparr> in
              (case get_Action json of
                 Inl e \<Rightarrow> st2\<lparr>logs := logs st2 @ [LogCaught e chunk]\<rparr>
               | Inr eventType \<Rightarrow>
                   let st3 = st2\<lparr>logs := logs st2 @ [LogEmitting json]\<rparr> in
                   (case emit (events st3) eventType json of
                      (ds, Inl e) \<Rightarrow>
                        st3\<lparr>delivered := delivered st3 @ ds,
                            logs := logs st3 @ [LogCaught e chunk]\<rparr>
                    | (ds, Inr r) \<Rightarrow> st3\<lparr>delivered := delivered st3 @ ds\<rparr>)))"
  by pat_completeness auto
termination
proof (relation "measure (\<lambda>(parse, chunk, st). count_list chunk (CHR 0x0A))")
  show "wf (measure (\<lambda>(parse, chunk, st). count_list chunk (CHR 0x0A)))"
    by simp
next
  fix parse :: "string \<Rightarrow> json option" and chunk :: string and st :: emitter
    and strings :: "string list" and piece :: string and acc :: emitter
  assume strings: "strings = split_newline chunk"
    and more: "1 < length strings"
    and piece: "piece \<in> set strings"
  have len: "length (split_newline s) = Suc (count_list s (CHR 0x0A))" for s
    by (induction s) (auto split: list.splits)
  have free: "\<forall>p \<in> set (split_newline s). count_list p (CHR 0x0A) = 0" for s
    by (induction s) (auto split: list.splits)
  from strings more len have "0 < count_list chunk (CHR 0x0A)"
    by simp
  moreover from strings piece free have "count_list piece (CHR 0x0A) = 0"
    by blast
  ultimately show "((parse, piece, acc), (parse, chunk, st))
      \<in> measure (\<lambda>(parse, chunk, st). count_list chunk (CHR 0x0A))"
    by simp
qed

subsection \<open>Events of the environment\<close>

text \<open>
  What can happen to an emitter: a caller registers a listener or calls \<open>listen()\<close>, the
  directory watcher fires, a spawned child writes a chunk to its standard output, a
  spawned child terminates. Each handler runs to completion before the next event.
\<close>

datatype input =
    CallListen
  | CallOn string listener
  | FsEvent string "string option"
  | StdoutData nat string
  | ChildExit nat

definition step :: "(string \<Rightarrow> json option) \<Rightarrow> input \<Rightarrow> emitter \<Rightarrow> emitter" where
  "step parse i st =
     (case i of
        CallListen \<Rightarrow> listen st
      | CallOn k l \<Rightarrow> st\<lparr>events := on k l (events st)\<rparr>
      | FsEvent event filename \<Rightarrow> if watcher st then watchCallback event filename st else st
      | StdoutData h chunk \<Rightarrow>
          if h < length (children st) then tryParseStdoutData parse chunk st else st
      | ChildExit h \<Rightarrow>
          if h < length (children st)
          then st\<lparr>children := (children st)[h := (children st ! h)\<lparr>exited := True\<rparr>]\<rparr>
          else st)"

definition run :: "(string \<Rightarrow> json option) \<Rightarrow> input list \<Rightarrow> emitter \<Rightarrow> emitter" where
  "run parse ins st = fold (step parse) ins st"

subsection \<open>Observations used in the statements\<close>

text \<open>
  The fields that the decoder never writes: everything except the buffer, the log and
  the trace of deliveries.
\<close>

definition frame :: "emitter \<Rightarrow> nat option \<times> bool \<times> string option \<times> string list \<times> listeners \<times> child list \<times> nat" where
  "frame st = (cmd st, watcher st, lastSeen st, filters st, events st, children st, exitHooks st)"

text \<open>
  A child is live when it has not terminated and no termination signal has been sent to
  it; \<open>live_children\<close> lists the handles of the live children, and \<open>single_owner\<close> says
  that only the tracked child can be live and that the tracked handle is a child.
\<close>

definition live :: "child \<Rightarrow> bool" where
  "live c = (\<not> exited c \<and> \<not> killed c)"

definition live_children :: "emitter \<Rightarrow> nat list" where
  "live_children st = filter (\<lambda>h. live (children st ! h)) [0..<length (children st)]"

definition single_owner :: "emitter \<Rightarrow> bool" where
  "single_owner st =
     ((\<forall>h < length (children st). live (children st ! h) \<longrightarrow> cmd st = Some h) \<and>
      (\<forall>h. cmd st = Some h \<longrightarrow> h < length (children st)))"

text \<open>
  Sample data for the examples. \<open>sample_parse\<close> knows five documents; on every string
  the examples below apply it to, it returns what \<open>JSON.parse\<close> returns (\<open>None\<close> where
  \<open>JSON.parse\<close> throws). \<open>sample_emitter\<close> is a new emitter with one wildcard listener,
  one listener of \<open>start\<close> and one fallback listener.
\<close>

definition sample_parse :: "string \<Rightarrow> json option" where
  \<open>sample_parse s =
     (if s = ''{"Action":"start"}'' then Some (JObj [(''Action'', JStr ''start'')])
      else if s = ''{"Action":"die"}'' then Some (JObj [(''Action'', JStr ''die'')])
      else if s = ''{"status":"pull"}'' then Some (JObj [(''status'', JStr ''pull'')])
      else if s = ''null'' then Some JNull
      else if s = ''{"Action":{"toString":1}}''
        then Some (JObj [(''Action'', JObj [(''toString'', JNum ''1'')])])
      else None)\<close>

definition sample_emitter :: emitter where
  "sample_emitter =
     run sample_parse [CallOn ''*'' 1, CallOn ''start'' 2, CallOn '''' 3] (constructor [])"

section \<open>Lemmas\<close>

declare tryParseStdoutData.simps [simp del]

subsection \<open>Splitting and joining\<close>

lemma split_newline_free: "CHR 0x0A \<notin> set s \<Longrightarrow> split_newline s = [s]"
  by (induction s) auto

lemma split_newline_join:
  "CHR 0x0A \<notin> set a \<Longrightarrow> split_newline (a @ CHR 0x0A # b) = a # split_newline b"
  by (induction a) auto

lemma join_render:
  "join '' '' (map (\<lambda>g. ''--filter '' @ g) (f # rest)) =
     ''--filter '' @ f @ concat (map (\<lambda>g. '' --filter '' @ g) rest)"
  by (induction rest arbitrary: f) simp_all

subsection \<open>Dispatch\<close>

lemma emit_deliveries:
  "fst (emit evs T P) =
     deliver evs ''*'' P @
     (case ToPropertyKey T of
        None \<Rightarrow> []
      | Some k \<Rightarrow>
          if evs k \<noteq> [] then deliver evs k P
          else if T = Some (JStr ''error'') then []
          else deliver evs '''' P)"
  by (auto simp: emit_def super_emit_def deliver_def ToPropertyKey_def
      split: prod.splits sum.splits bool.splits option.splits)

lemma emit_result:
  "snd (emit evs T P) =
     (case ToPropertyKey T of
        None \<Rightarrow> Inl TypeError
      | Some k \<Rightarrow>
          if evs k \<noteq> [] then Inr True
          else if T = Some (JStr ''error'') then Inl (UnhandledError P)
          else Inr (evs '''' \<noteq> []))"
  by (auto simp: emit_def super_emit_def deliver_def ToPropertyKey_def
      split: prod.splits sum.splits bool.splits option.splits)

lemma on_fold:
  "fold (\<lambda>(k, l). on k l) regs evs k = evs k @ [l. (k', l) \<leftarrow> regs, k' = k]"
  by (induction regs arbitrary: evs) (auto simp: on_def)

subsection \<open>One piece and two pieces of a chunk\<close>

lemma piece_unfold:
  assumes "chunk \<noteq> []" "CHR 0x0A \<notin> set chunk"
  shows "tryParseStdoutData parse chunk st =
     (case parse (data st @ chunk) of
        None \<Rightarrow> st\<lparr>data := data st @ chunk, logs := logs st @ [LogCaught SyntaxError chunk]\<rparr>
      | Some json \<Rightarrow>
          (case get_Action json of
             Inl e \<Rightarrow> st\<lparr>data := [], logs := logs st @ [LogCaught e chunk]\<rparr>
           | Inr eventType \<Rightarrow>
               st\<lparr>data := [],
                  logs := logs st @ LogEmitting json #
                    (case snd (emit (events st) eventType json) of
                       Inl e \<Rightarrow> [LogCaught e chunk] | Inr r \<Rightarrow> []),
                  delivered := delivered st @ fst (emit (events st) eventType json)\<rparr>))"
  using assms
  by (subst tryParseStdoutData.simps)
     (simp add: split_newline_free Let_def split: option.splits sum.splits prod.splits)

lemma two_pieces:
  assumes "CHR 0x0A \<notin> set a" "CHR 0x0A \<notin> set b"
  shows "tryParseStdoutData parse (a @ CHR 0x0A # b) st =
         tryParseStdoutData parse b (tryParseStdoutData parse a st)"
  using assms
  by (subst tryParseStdoutData.simps)
     (simp add: split_newline_join split_newline_free Let_def)

lemma emitting_caught:
  "[j. LogEmitting j \<leftarrow> (case r of Inl e \<Rightarrow> [LogCaught e c] | Inr x \<Rightarrow> [])] = []"
  by (cases r) simp_all

lemma fold_frame:
  "(\<And>x s. x \<in> set xs \<Longrightarrow> f (g x s) = f s) \<Longrightarrow> f (fold g xs s) = f s"
  by (induction xs arbitrary: s) auto

lemma tryParse_frame: "frame (tryParseStdoutData parse chunk st) = frame st"
proof (induction parse chunk st rule: tryParseStdoutData.induct)
  case (1 parse chunk st)
  show ?case
  proof (cases "chunk \<noteq> [] \<and> 1 < length (split_newline chunk)")
    case True
    then have "tryParseStdoutData parse chunk st =
        fold (tryParseStdoutData parse) (split_newline chunk) st"
      by (subst tryParseStdoutData.simps) (simp add: Let_def)
    moreover have "frame (fold (tryParseStdoutData parse) (split_newline chunk) st) = frame st"
      using True by (intro fold_frame "1.IH") auto
    ultimately show ?thesis by simp
  next
    case False
    then show ?thesis
      by (subst tryParseStdoutData.simps)
         (auto simp: Let_def frame_def split: option.splits sum.splits prod.splits)
  qed
qed

subsection \<open>Cleanup and listen, field by field\<close>

lemma cleanup_fields:
  "cmd (cleanup st) = cmd st" "length (children (cleanup st)) = length (children st)"
  "watcher (cleanup st) = watcher st" "filters (cleanup st) = filters st"
  "data (cleanup st) = data st" "lastSeen (cleanup st) = lastSeen st"
  "events (cleanup st) = events st" "logs (cleanup st) = logs st"
  "delivered (cleanup st) = delivered st"
  by (auto simp: cleanup_def split: option.splits)

lemma listen_fields:
  "cmd (listen st) = Some (length (children st))"
  "length (children (listen st)) = Suc (length (children st))"
  "filters (listen st) = filters st" "data (listen st) = data st"
  "lastSeen (listen st) = lastSeen st" "events (listen st) = events st"
  "delivered (listen st) = delivered st" "watcher (listen st)"
  by (auto simp: listen_def Let_def cleanup_fields)

lemma listen_children:
  "children (listen st) = children (cleanup st) @
     [spawn (''docker events --format '{{json .}}' '' @
          join '' '' (map (\<lambda>filter. ''--filter '' @ filter) (filters st))) True]"
  by (simp add: listen_def Let_def cleanup_fields)

lemma listen_nth_old:
  "h < length (children st) \<Longrightarrow> children (listen st) ! h = children (cleanup st) ! h"
  by (simp only: listen_children nth_append cleanup_fields if_True)

lemma listen_nth_new:
  "children (listen st) ! length (children st) =
     spawn (''docker events --format '{{json .}}' '' @
          join '' '' (map (\<lambda>filter. ''--filter '' @ filter) (filters st))) True"
proof -
  have "children (listen st) ! length (children (cleanup st)) =
      spawn (''docker events --format '{{json .}}' '' @
          join '' '' (map (\<lambda>filter. ''--filter '' @ filter) (filters st))) True"
    by (simp only: listen_children nth_append_length)
  then show ?thesis by (simp only: cleanup_fields)
qed

lemma live_spawn: "live (spawn c sh)"
  by (simp add: live_def spawn_def)

subsection \<open>Single ownership of the child is an invariant\<close>

lemma live_children_iff:
  "h \<in> set (live_children st) \<longleftrightarrow> h < length (children st) \<and> live (children st ! h)"
  by (auto simp: live_children_def)

lemma single_owner_constructor: "single_owner (constructor fs)"
  by (simp add: single_owner_def constructor_def)

lemma cleanup_no_live:
  assumes "single_owner st"
  shows "h < length (children st) \<Longrightarrow> \<not> live (children (cleanup st) ! h)"
proof -
  assume h: "h < length (children st)"
  show ?thesis
  proof (cases "cmd st")
    case None
    with assms h show ?thesis by (auto simp: single_owner_def cleanup_def)
  next
    case (Some k)
    with assms have k: "k < length (children st)" by (simp add: single_owner_def)
    show ?thesis
    proof (cases "h = k")
      case True
      with Some k show ?thesis
        by (auto simp: cleanup_def kill_def live_def)
    next
      case False
      with assms h Some have "\<not> live (children st ! h)" by (auto simp: single_owner_def)
      with False Some show ?thesis by (auto simp: cleanup_def)
    qed
  qed
qed

lemma listen_live:
  assumes "single_owner st"
  shows "live_children (listen st) = [length (children st)]"
proof -
  have "filter (\<lambda>h. live (children (listen st) ! h)) [0..<length (children st)] = []"
    using cleanup_no_live [OF assms]
    by (simp add: filter_empty_conv listen_nth_old)
  then show ?thesis
    by (simp add: live_children_def listen_fields listen_nth_new live_spawn)
qed

lemma single_owner_listen:
  assumes "single_owner st"
  shows "single_owner (listen st)"
proof -
  have "length (children st) = h"
    if "h < Suc (length (children st))" "live (children (listen st) ! h)" for h
  proof -
    from that have "h \<in> set (live_children (listen st))"
      by (simp only: live_children_iff listen_fields)
    then show ?thesis
      by (simp only: listen_live [OF assms]) simp
  qed
  then have "\<forall>h < Suc (length (children st)).
      live (children (listen st) ! h) \<longrightarrow> length (children st) = h"
    by blast
  then show ?thesis
    by (simp add: single_owner_def listen_fields)
qed

lemma single_owner_cleanup:
  assumes "single_owner st"
  shows "single_owner (cleanup st)"
proof -
  have "\<forall>h < length (children st). \<not> live (children (cleanup st) ! h)"
    using cleanup_no_live [OF assms] by blast
  moreover have "\<forall>h. cmd st = Some h \<longrightarrow> h < length (children st)"
    using assms unfolding single_owner_def by blast
  ultimately show ?thesis
    unfolding single_owner_def cleanup_fields by blast
qed

lemma single_owner_lastSeen: "single_owner (st\<lparr>lastSeen := x\<rparr>) = single_owner st"
  by (simp add: single_owner_def)

lemma single_owner_watch:
  "single_owner st \<Longrightarrow> single_owner (watchCallback event filename st)"
  by (simp add: watchCallback_def Let_def single_owner_lastSeen single_owner_listen
        single_owner_cleanup)

lemma single_owner_frame: "frame st' = frame st \<Longrightarrow> single_owner st' = single_owner st"
  by (simp add: frame_def single_owner_def)

lemma single_owner_exit:
  assumes "single_owner st"
  shows "single_owner (st\<lparr>children := (children st)[h := (children st ! h)\<lparr>exited := True\<rparr>]\<rparr>)"
proof -
  have a: "\<forall>k < length (children st). live (children st ! k) \<longrightarrow> cmd st = Some k"
    and b: "\<forall>k. cmd st = Some k \<longrightarrow> k < length (children st)"
    using assms unfolding single_owner_def by blast+
  have c: "live (children st ! k)"
    if "k < length (children st)"
       "live ((children st)[h := (children st ! h)\<lparr>exited := True\<rparr>] ! k)" for k
    using that by (cases "k = h") (simp_all add: live_def)
  show ?thesis
    by (simp add: single_owner_def) (use a b c in blast)
qed

lemma single_owner_on: "single_owner (st\<lparr>events := x\<rparr>) = single_owner st"
  by (simp add: single_owner_def)

lemma single_owner_step: "single_owner st \<Longrightarrow> single_owner (step parse i st)"
  by (cases i)
     (simp_all add: step_def single_owner_listen single_owner_watch single_owner_exit
        single_owner_on single_owner_frame [OF tryParse_frame])

lemma single_owner_run: "single_owner st \<Longrightarrow> single_owner (run parse ins st)"
  unfolding run_def by (induction ins arbitrary: st) (simp_all add: single_owner_step)

lemma filters_watch: "filters (watchCallback event filename st) = filters st"
  by (simp add: watchCallback_def Let_def listen_fields cleanup_fields)

lemma filters_step: "filters (step parse i st) = filters st"
proof (cases i)
  case (StdoutData h chunk)
  have "filters (tryParseStdoutData parse chunk st) = filters st"
    using tryParse_frame [of parse chunk st] by (simp add: frame_def)
  with StdoutData show ?thesis by (simp add: step_def)
qed (simp_all add: step_def listen_fields filters_watch)

lemma filters_run: "filters (run parse ins st) = filters st"
  unfolding run_def by (induction ins arbitrary: st) (simp_all add: filters_step)

lemma data_watch: "data (watchCallback event filename st) = data st"
  by (simp add: watchCallback_def Let_def listen_fields cleanup_fields)

lemma sample_emitter_fields:
  "data sample_emitter = []" "delivered sample_emitter = []" "logs sample_emitter = []"
  "events sample_emitter ''*'' = [1]" "events sample_emitter ''start'' = [2]"
  "events sample_emitter '''' = [3]" "events sample_emitter ''die'' = []"
  "events sample_emitter ''undefined'' = []" "events sample_emitter ''error'' = []"
  "cmd sample_emitter = None" "children sample_emitter = []"
  by (simp_all add: sample_emitter_def run_def step_def on_def constructor_def)

section \<open>The claims\<close>

text \<open>
  Claim C1, as amended. Publishing an event of type \<open>T\<close> with payload \<open>P\<close> calls first
  every wildcard listener, then every listener registered under the exact pattern \<open>T\<close>;
  the fallback listeners are called if and only if \<open>T\<close> has a property key, no listener
  is registered under it, and \<open>T\<close> is not the string \<open>error\<close>. Within each pattern the
  listeners are called in the order of their registration (\<open>regs\<close> is the sequence of
  registrations made on a new emitter). An \<open>error\<close> event without a listener of its own
  is thrown after the wildcard listeners have been called, and so is a \<open>TypeError\<close> for
  a type without a property key. Every string, number, boolean, \<open>null\<close> and \<open>undefined\<close>
  has a key; an object has none when it has a property named \<open>toString\<close>, and an array
  has none when it holds such an object, at any depth of nesting.
\<close>

theorem emit_dispatch:
  "emit (fold (\<lambda>(k, l). on k l) regs (events (constructor fs))) T P =
     (let registered = (\<lambda>k. [l. (k', l) \<leftarrow> regs, k' = k]);
          calls = (\<lambda>k. map (\<lambda>l. \<lparr>pattern = k, target = l, payload = P\<rparr>) (registered k))
      in (calls ''*'' @
            (case ToPropertyKey T of
               None \<Rightarrow> []
             | Some k \<Rightarrow>
                 if registered k \<noteq> [] then calls k
                 else if T = Some (JStr ''error'') then []
                 else calls ''''),
          case ToPropertyKey T of
            None \<Rightarrow> Inl TypeError
          | Some k \<Rightarrow>
              if registered k \<noteq> [] then Inr True
              else if T = Some (JStr ''error'') then Inl (UnhandledError P)
              else Inr (registered '''' \<noteq> [])))"
proof -
  have evs: "fold (\<lambda>(k, l). on k l) regs (events (constructor fs)) k =
      [l. (k', l) \<leftarrow> regs, k' = k]" for k
    by (simp add: on_fold constructor_def)
  show ?thesis
    by (rule prod_eqI)
       (simp_all only: emit_deliveries emit_result deliver_def evs Let_def fst_conv snd_conv)
qed

text \<open>
  Claim C1 as it was stated fails for the type \<open>error\<close>: with a wildcard listener, a
  fallback listener and no listener registered under \<open>error\<close>, publishing an \<open>error\<close>
  event (as line 86 does when the child cannot be started) calls the wildcard listener
  and throws; the fallback listener is not called.
\<close>

theorem emit_error_skips_fallback:
  "on '''' 7 (on ''*'' 1 (events (constructor []))) ''error'' = [] \<and>
   on '''' 7 (on ''*'' 1 (events (constructor []))) '''' = [7] \<and>
   emit (on '''' 7 (on ''*'' 1 (events (constructor []))))
       (Some (JStr ''error'')) ''spawn ENOENT'' =
     ([\<lparr>pattern = ''*'', target = 1, payload = ''spawn ENOENT''\<rparr>],
      Inl (UnhandledError ''spawn ENOENT''))"
  by (simp add: on_def constructor_def emit_def super_emit_def ToPropertyKey_def deliver_def)

text \<open>
  Claim C2. A chunk made of two complete records joined by one line feed, arriving when
  the buffer is empty, is decoded in exactly two cycles, the first record before the
  second. Each cycle calls the wildcard listeners with its record and then makes the
  typed delivery keyed on the record's \<open>Action\<close> (to the listeners of that key, or failing
  them to the fallback listeners). The buffer is empty afterwards. A record is a text
  without a line feed that \<open>JSON.parse\<close> accepts, whose \<open>Action\<close> can be read and is a
  value that has a key in the listener table (as every string has).
\<close>

theorem two_records_two_cycles:
  assumes "r1 \<noteq> []" and "r2 \<noteq> []"
    and "CHR 0x0A \<notin> set r1" and "CHR 0x0A \<notin> set r2"
    and "data st = []"
    and "parse r1 = Some j1" and "parse r2 = Some j2"
    and "get_Action j1 = Inr T1" and "get_Action j2 = Inr T2"
    and "ToPropertyKey T1 = Some k1" and "ToPropertyKey T2 = Some k2"
  shows "let st' = tryParseStdoutData parse (r1 @ CHR 0x0A # r2) st;
             typed = (\<lambda>T k j. if events st k \<noteq> [] then deliver (events st) k j
                               else if T = Some (JStr ''error'') then []
                               else deliver (events st) '''' j)
         in data st' = [] \<and>
            [j. LogEmitting j \<leftarrow> logs st'] = [j. LogEmitting j \<leftarrow> logs st] @ [j1, j2] \<and>
            delivered st' = delivered st @
              deliver (events st) ''*'' j1 @ typed T1 k1 j1 @
              deliver (events st) ''*'' j2 @ typed T2 k2 j2"
proof -
  let ?s1 = "tryParseStdoutData parse r1 st"
  let ?s2 = "tryParseStdoutData parse r2 ?s1"
  have s1: "data ?s1 = []" "events ?s1 = events st"
    "delivered ?s1 = delivered st @ fst (emit (events st) T1 j1)"
    "[j. LogEmitting j \<leftarrow> logs ?s1] = [j. LogEmitting j \<leftarrow> logs st] @ [j1]"
    using assms by (simp_all add: piece_unfold emitting_caught)
  have s2: "data ?s2 = []"
    "delivered ?s2 = delivered ?s1 @ fst (emit (events st) T2 j2)"
    "[j. LogEmitting j \<leftarrow> logs ?s2] = [j. LogEmitting j \<leftarrow> logs ?s1] @ [j2]"
    using assms s1(1,2) by (simp_all add: piece_unfold [of r2] emitting_caught)
  have "tryParseStdoutData parse (r1 @ CHR 0x0A # r2) st = ?s2"
    using assms by (simp add: two_pieces)
  then show ?thesis
    using assms(10,11) by (simp only: Let_def s1 s2 emit_deliveries option.case) simp
qed

theorem two_records_two_cycles_witness:
  \<open>sample_parse ''{"Action":"start"}'' = Some (JObj [(''Action'', JStr ''start'')]) \<and>
   sample_parse ''{"Action":"die"}'' = Some (JObj [(''Action'', JStr ''die'')]) \<and>
   ToPropertyKey (Some (JStr ''start'')) = Some ''start'' \<and>
   ToPropertyKey (Some (JStr ''die'')) = Some ''die'' \<and>
   data (tryParseStdoutData sample_parse
           ''{"Action":"start"}\<newline>{"Action":"die"}'' sample_emitter) = [] \<and>
   delivered (tryParseStdoutData sample_parse
           ''{"Action":"start"}\<newline>{"Action":"die"}'' sample_emitter) =
     [\<lparr>pattern = ''*'', target = 1, payload = JObj [(''Action'', JStr ''start'')]\<rparr>,
      \<lparr>pattern = ''start'', target = 2, payload = JObj [(''Action'', JStr ''start'')]\<rparr>,
      \<lparr>pattern = ''*'', target = 1, payload = JObj [(''Action'', JStr ''die'')]\<rparr>,
      \<lparr>pattern = '''', target = 3, payload = JObj [(''Action'', JStr ''die'')]\<rparr>]\<close>
  using two_records_two_cycles [where ?r1.0 = \<open>''{"Action":"start"}''\<close>
      and ?r2.0 = \<open>''{"Action":"die"}''\<close>
      and st = sample_emitter and parse = sample_parse
      and ?j1.0 = "JObj [(''Action'', JStr ''start'')]"
      and ?j2.0 = "JObj [(''Action'', JStr ''die'')]"
      and ?T1.0 = "Some (JStr ''start'')" and ?T2.0 = "Some (JStr ''die'')"
      and ?k1.0 = "''start''" and ?k2.0 = "''die''"]
  by (simp add: sample_parse_def sample_emitter_fields deliver_def ToPropertyKey_def Let_def)

text \<open>
  Claim C3. A record split across two chunks, neither of which contains a line feed,
  arriving when the buffer is empty: after the first chunk, which is not a document by
  itself, nothing has been delivered and the buffer holds that chunk; after the second
  chunk the document parsed from both chunks together has been delivered, to the
  wildcard listeners and under the key of its \<open>Action\<close> (a value that has a key in the
  listener table, as every string has), and the buffer is empty.
\<close>

theorem split_record_reassembled:
  assumes "c1 \<noteq> []" and "c2 \<noteq> []"
    and "CHR 0x0A \<notin> set c1" and "CHR 0x0A \<notin> set c2"
    and "data st = []"
    and "parse c1 = None" and "parse (c1 @ c2) = Some j"
    and "get_Action j = Inr T" and "ToPropertyKey T = Some k"
  shows "let s1 = tryParseStdoutData parse c1 st;
             s2 = tryParseStdoutData parse c2 s1
         in delivered s1 = delivered st \<and> data s1 = c1 \<and>
            delivered s2 = delivered st @ deliver (events st) ''*'' j @
              (if events st k \<noteq> [] then deliver (events st) k j
               else if T = Some (JStr ''error'') then []
               else deliver (events st) '''' j) \<and>
            data s2 = []"
proof -
  let ?s1 = "tryParseStdoutData parse c1 st"
  have s1: "?s1 = st\<lparr>data := c1, logs := logs st @ [LogCaught SyntaxError c1]\<rparr>"
    using assms by (simp add: piece_unfold)
  have s2: "data (tryParseStdoutData parse c2 ?s1) = []"
    "delivered (tryParseStdoutData parse c2 ?s1) = delivered st @ fst (emit (events st) T j)"
    using assms by (simp_all add: piece_unfold [of c2] s1)
  show ?thesis
    using assms(9) by (simp only: Let_def s2 emit_deliveries option.case) (simp add: s1)
qed

theorem split_record_reassembled_witness:
  \<open>sample_parse ''{"Action":'' = None \<and>
   sample_parse (''{"Action":'' @ ''"start"}'') = Some (JObj [(''Action'', JStr ''start'')]) \<and>
   ToPropertyKey (Some (JStr ''start'')) = Some ''start'' \<and>
   delivered (tryParseStdoutData sample_parse ''{"Action":'' sample_emitter) = [] \<and>
   data (tryParseStdoutData sample_parse ''{"Action":'' sample_emitter) = ''{"Action":'' \<and>
   delivered (tryParseStdoutData sample_parse ''"start"}''
       (tryParseStdoutData sample_parse ''{"Action":'' sample_emitter)) =
     [\<lparr>pattern = ''*'', target = 1, payload = JObj [(''Action'', JStr ''start'')]\<rparr>,
      \<lparr>pattern = ''start'', target = 2, payload = JObj [(''Action'', JStr ''start'')]\<rparr>] \<and>
   data (tryParseStdoutData sample_parse ''"start"}''
       (tryParseStdoutData sample_parse ''{"Action":'' sample_emitter)) = []\<close>
  using split_record_reassembled [where ?c1.0 = \<open>''{"Action":''\<close>
      and ?c2.0 = \<open>''"start"}''\<close>
      and st = sample_emitter and parse = sample_parse
      and j = "JObj [(''Action'', JStr ''start'')]" and T = "Some (JStr ''start'')"
      and k = "''start''"]
  by (simp add: sample_parse_def sample_emitter_fields deliver_def ToPropertyKey_def Let_def)

text \<open>
  Claim C4. When the buffer with the chunk appended does not parse, the decoder only
  extends the buffer by the chunk and logs the error: nothing is delivered to any
  listener and no other field of the emitter changes, so a later chunk can complete
  the document.
\<close>

theorem malformed_chunk_retained:
  assumes "chunk \<noteq> []" and "CHR 0x0A \<notin> set chunk"
    and "parse (data st @ chunk) = None"
  shows "tryParseStdoutData parse chunk st =
           st\<lparr>data := data st @ chunk, logs := logs st @ [LogCaught SyntaxError chunk]\<rparr>"
  using assms by (simp add: piece_unfold)

theorem malformed_chunk_retained_witness:
  \<open>''{"Action":'' \<noteq> [] \<and> CHR 0x0A \<notin> set ''{"Action":'' \<and>
   sample_parse (data sample_emitter @ ''{"Action":'') = None \<and>
   data (tryParseStdoutData sample_parse ''{"Action":'' sample_emitter) = ''{"Action":'' \<and>
   delivered (tryParseStdoutData sample_parse ''{"Action":'' sample_emitter) = []\<close>
  using malformed_chunk_retained [where chunk = \<open>''{"Action":''\<close>
      and st = sample_emitter and parse = sample_parse]
  by (simp add: sample_parse_def sample_emitter_fields)

text \<open>
  Claim C5. A \<open>rename\<close> notification for the socket file or the pid file \<open>f\<close>: when
  \<open>lastSeen\<close> is the socket file and \<open>f\<close> the pid file, \<open>cleanup\<close> (stop) runs; when
  \<open>lastSeen\<close> is the pid file and \<open>f\<close> the socket file, \<open>listen\<close> (restart) runs; in every
  other combination nothing happens to the pipeline; and in all three cases \<open>lastSeen\<close>
  is \<open>f\<close> afterwards.
\<close>

theorem watch_transitions:
  assumes "f = ''docker.sock'' \<or> f = ''dockerd.pid''"
  shows "watchCallback ''rename'' (Some f) st =
           (if lastSeen st = Some ''docker.sock'' \<and> f = ''dockerd.pid'' then cleanup st
            else if lastSeen st = Some ''dockerd.pid'' \<and> f = ''docker.sock'' then listen st
            else st)\<lparr>lastSeen := Some f\<rparr>"
  using assms by (auto simp: watchCallback_def Let_def cleanup_fields)

theorem watch_transitions_witness:
  "(''dockerd.pid'' = ''docker.sock'' \<or> ''dockerd.pid'' = ''dockerd.pid'') \<and>
   watchCallback ''rename'' (Some ''dockerd.pid'')
       ((listen (constructor []))\<lparr>lastSeen := Some ''docker.sock''\<rparr>) =
     (cleanup ((listen (constructor []))\<lparr>lastSeen := Some ''docker.sock''\<rparr>))
       \<lparr>lastSeen := Some ''dockerd.pid''\<rparr> \<and>
   watchCallback ''rename'' (Some ''docker.sock'')
       ((constructor [])\<lparr>lastSeen := Some ''dockerd.pid''\<rparr>) =
     (listen ((constructor [])\<lparr>lastSeen := Some ''dockerd.pid''\<rparr>))
       \<lparr>lastSeen := Some ''docker.sock''\<rparr> \<and>
   watchCallback ''rename'' (Some ''docker.sock'') (constructor []) =
     (constructor [])\<lparr>lastSeen := Some ''docker.sock''\<rparr>"
  using watch_transitions [of "''dockerd.pid''"
          "(listen (constructor []))\<lparr>lastSeen := Some ''docker.sock''\<rparr>"]
        watch_transitions [of "''docker.sock''" "(constructor [])\<lparr>lastSeen := Some ''dockerd.pid''\<rparr>"]
        watch_transitions [of "''docker.sock''" "constructor []"]
  by (simp add: constructor_def)

text \<open>
  Claim C6. In every state \<open>s\<close> an emitter can reach (by calls of \<open>listen\<close>,
  registrations, watcher notifications, output and termination of its children), only
  the tracked child can be live; after a further call of \<open>listen\<close> exactly one child is
  live, the newly spawned and now tracked one; and a child that was tracked and live
  before that call has been sent one termination signal by it. So a second \<open>listen()\<close>
  while the child of the first is alive leaves exactly one live tracked child.
\<close>

theorem listen_single_live_child:
  "let s = run parse ins (constructor fs); s' = listen s in
     set (live_children s) \<subseteq> set_option (cmd s) \<and>
     cmd s' = Some (length (children s)) \<and>
     live_children s' = [length (children s)] \<and>
     (\<forall>h. cmd s = Some h \<and> live (children s ! h) \<longrightarrow>
          killed (children s' ! h) \<and>
          sigterms (children s' ! h) = Suc (sigterms (children s ! h)))"
proof -
  let ?s = "run parse ins (constructor fs)"
  have inv: "single_owner ?s"
    by (rule single_owner_run) (rule single_owner_constructor)
  have a: "set (live_children ?s) \<subseteq> set_option (cmd ?s)"
  proof
    fix h
    assume "h \<in> set (live_children ?s)"
    then have "h < length (children ?s)" "live (children ?s ! h)"
      by (simp_all only: live_children_iff)
    with inv have "cmd ?s = Some h"
      unfolding single_owner_def by blast
    then show "h \<in> set_option (cmd ?s)"
      by simp
  qed
  have d: "killed (children (listen ?s) ! h) \<and>
      sigterms (children (listen ?s) ! h) = Suc (sigterms (children ?s ! h))"
    if "cmd ?s = Some h" "live (children ?s ! h)" for h
  proof -
    from inv that(1) have h: "h < length (children ?s)"
      by (simp add: single_owner_def)
    then have "children (listen ?s) ! h = children (cleanup ?s) ! h"
      by (rule listen_nth_old)
    with that h show ?thesis
      by (simp add: cleanup_def kill_def live_def)
  qed
  show ?thesis
    unfolding Let_def using a d listen_live [OF inv] listen_fields(1) [of ?s] by blast
qed

theorem listen_single_live_child_witness:
  "cmd (listen (constructor [])) = Some 0 \<and>
   live (children (listen (constructor [])) ! 0) \<and>
   cmd (listen (listen (constructor []))) = Some 1 \<and>
   live_children (listen (listen (constructor []))) = [1] \<and>
   killed (children (listen (listen (constructor []))) ! 0)"
  using listen_single_live_child [of "\<lambda>s. None" "[CallListen]" "[]"]
  by (simp add: Let_def run_def step_def)
     (simp add: constructor_def listen_def cleanup_def spawn_def Let_def live_def)

text \<open>
  Claim C7. \<open>cleanup\<close> (stop) changes nothing when no child is tracked, or when the
  tracked child has already been signalled or has terminated; otherwise it sends the
  termination signal to the tracked child and returns with the child not yet
  terminated. Doing it twice is the same as doing it once. It is a total function of
  the state: no case raises an error.
\<close>

theorem cleanup_idempotent:
  "(cmd st = None \<longrightarrow> cleanup st = st) \<and>
   (cmd st = Some h \<and> (killed (children st ! h) \<or> exited (children st ! h)) \<longrightarrow>
      cleanup st = st) \<and>
   (cmd st = Some h \<and> h < length (children st) \<and>
    \<not> killed (children st ! h) \<and> \<not> exited (children st ! h) \<longrightarrow>
      cleanup st = st\<lparr>children := (children st)
        [h := (children st ! h)\<lparr>killed := True, sigterms := Suc (sigterms (children st ! h))\<rparr>]\<rparr> \<and>
      \<not> exited (children (cleanup st) ! h)) \<and>
   cleanup (cleanup st) = cleanup st"
proof -
  have a: "cleanup st = st" if "cmd st = None"
    using that by (simp add: cleanup_def)
  have b: "cleanup st = st"
    if "cmd st = Some h" "killed (children st ! h) \<or> exited (children st ! h)"
    using that by (auto simp: cleanup_def kill_def)
  have c: "cleanup st = st\<lparr>children := (children st)
        [h := (children st ! h)\<lparr>killed := True, sigterms := Suc (sigterms (children st ! h))\<rparr>]\<rparr>"
       "\<not> exited (children (cleanup st) ! h)"
    if "cmd st = Some h" "h < length (children st)"
       "\<not> killed (children st ! h)" "\<not> exited (children st ! h)"
    using that by (simp_all add: cleanup_def kill_def)
  have d: "cleanup (cleanup st) = cleanup st"
  proof (cases "cmd st")
    case None
    then show ?thesis by (simp add: cleanup_def)
  next
    case (Some k)
    show ?thesis
    proof (cases "k < length (children st)")
      case True
      with Some show ?thesis by (simp add: cleanup_def kill_def)
    next
      case False
      then have "(children st)[k := c] = children st" for c
        by (simp add: list_update_beyond)
      with Some show ?thesis by (simp add: cleanup_def)
    qed
  qed
  from a b c d show ?thesis by blast
qed

theorem cleanup_idempotent_witness:
  "cmd (constructor []) = None \<and> cleanup (constructor []) = constructor [] \<and>
   cmd (listen (constructor [])) = Some 0 \<and>
   \<not> killed (children (listen (constructor [])) ! 0) \<and>
   \<not> exited (children (listen (constructor [])) ! 0) \<and>
   killed (children (cleanup (listen (constructor []))) ! 0) \<and>
   sigterms (children (cleanup (listen (constructor []))) ! 0) = 1 \<and>
   \<not> exited (children (cleanup (listen (constructor []))) ! 0) \<and>
   cleanup (cleanup (listen (constructor []))) = cleanup (listen (constructor []))"
  using cleanup_idempotent [of "constructor []" 0]
        cleanup_idempotent [of "listen (constructor [])" 0]
  by (simp add: constructor_def listen_def cleanup_def spawn_def Let_def)

text \<open>
  Claim C8. Whatever happened to an emitter constructed with the filters \<open>fs\<close>, the child
  that \<open>listen\<close> spawns and tracks is launched through a shell with the command
  \<open>docker events --format '{{json .}}'\<close> followed by \<open>--filter f\<close> for each filter \<open>f\<close> of
  \<open>fs\<close>, in the order of \<open>fs\<close>, separated by single spaces (with no filter, the command
  ends with the space after the format).
\<close>

theorem spawn_command:
  "let s = run parse ins (constructor fs); s' = listen s in
     cmd s' = Some (length (children s)) \<and>
     shell (children s' ! length (children s)) \<and>
     command (children s' ! length (children s)) =
       ''docker events --format '{{json .}}' '' @
       (case fs of
          [] \<Rightarrow> []
        | f # rest \<Rightarrow> ''--filter '' @ f @ concat (map (\<lambda>g. '' --filter '' @ g) rest))"
proof -
  let ?s = "run parse ins (constructor fs)"
  have "filters ?s = fs"
    by (simp add: filters_run constructor_def)
  then have c: "children (listen ?s) ! length (children ?s) =
      spawn (''docker events --format '{{json .}}' '' @
          join '' '' (map (\<lambda>filter. ''--filter '' @ filter) fs)) True"
    by (simp only: listen_nth_new)
  have cm: "command (children (listen ?s) ! length (children ?s)) =
      ''docker events --format '{{json .}}' '' @
      join '' '' (map (\<lambda>filter. ''--filter '' @ filter) fs)"
    and sh: "shell (children (listen ?s) ! length (children ?s))"
    by (simp_all only: c spawn_def child.select_convs)
  show ?thesis
  proof (cases fs)
    case Nil
    show ?thesis
      by (simp only: Let_def listen_fields cm sh) (simp add: Nil)
  next
    case (Cons f rest)
    note cm' = cm [unfolded Cons join_render] and sh' = sh [unfolded Cons]
    show ?thesis
      unfolding Let_def listen_fields Cons list.case
      by (intro conjI refl cm' sh')
  qed
qed

theorem spawn_command_witness:
  "command (children (listen (constructor [''type=container'', ''event=start''])) ! 0) =
     ''docker events --format '{{json .}}' --filter type=container --filter event=start'' \<and>
   shell (children (listen (constructor [''type=container'', ''event=start''])) ! 0) \<and>
   command (children (listen (constructor [])) ! 0) = ''docker events --format '{{json .}}' ''"
  using spawn_command [of "\<lambda>s. None" "[]" "[''type=container'', ''event=start'']"]
        spawn_command [of "\<lambda>s. None" "[]" "[]"]
  by (simp add: Let_def run_def) (simp add: constructor_def)

text \<open>
  Claim C9. The buffer is empty at construction. Neither \<open>cleanup\<close> nor \<open>listen\<close> nor the
  watcher callback changes it, nor any event other than a chunk of output. So the
  content left in the buffer when the pipeline is stopped or restarted is still there
  afterwards, and the next chunk (one piece, without line feed) is appended to it: what
  is parsed is the stale content followed by the chunk.
\<close>

theorem buffer_survives_restart:
  "data (constructor fs) = [] \<and>
   data (cleanup st) = data st \<and>
   data (listen st) = data st \<and>
   data (watchCallback event filename st) = data st \<and>
   ((\<forall>h c. i \<noteq> StdoutData h c) \<longrightarrow> data (step parse i st) = data st) \<and>
   (chunk \<noteq> [] \<and> CHR 0x0A \<notin> set chunk \<longrightarrow>
      (case parse (data st @ chunk) of
         None \<Rightarrow>
           data (tryParseStdoutData parse chunk (listen st)) = data st @ chunk \<and>
           delivered (tryParseStdoutData parse chunk (listen st)) = delivered st
       | Some j \<Rightarrow>
           data (tryParseStdoutData parse chunk (listen st)) = [] \<and>
           delivered (tryParseStdoutData parse chunk (listen st)) =
             delivered st @
             (case get_Action j of Inl e \<Rightarrow> [] | Inr T \<Rightarrow> fst (emit (events st) T j))))"
proof -
  have a: "data (constructor fs) = []"
    by (simp add: constructor_def)
  have b: "data (step parse i st) = data st" if "\<forall>h c. i \<noteq> StdoutData h c"
    using that by (cases i) (simp_all add: step_def listen_fields data_watch)
  have c: "case parse (data st @ chunk) of
         None \<Rightarrow>
           data (tryParseStdoutData parse chunk (listen st)) = data st @ chunk \<and>
           delivered (tryParseStdoutData parse chunk (listen st)) = delivered st
       | Some j \<Rightarrow>
           data (tryParseStdoutData parse chunk (listen st)) = [] \<and>
           delivered (tryParseStdoutData parse chunk (listen st)) =
             delivered st @
             (case get_Action j of Inl e \<Rightarrow> [] | Inr T \<Rightarrow> fst (emit (events st) T j))"
    if "chunk \<noteq> []" "CHR 0x0A \<notin> set chunk"
    using that
    by (simp add: piece_unfold [of chunk] listen_fields split: option.splits sum.splits)
  from a b c show ?thesis
    by (simp add: cleanup_fields listen_fields data_watch)
qed

theorem buffer_survives_restart_witness:
  \<open>data (tryParseStdoutData sample_parse ''{"Action":'' sample_emitter) = ''{"Action":'' \<and>
   data (listen (tryParseStdoutData sample_parse ''{"Action":'' sample_emitter)) =
     ''{"Action":'' \<and>
   sample_parse (''{"Action":'' @ ''{"Action":"start"}'') = None \<and>
   data (tryParseStdoutData sample_parse ''{"Action":"start"}''
          (listen (tryParseStdoutData sample_parse ''{"Action":'' sample_emitter))) =
     ''{"Action":{"Action":"start"}'' \<and>
   delivered (tryParseStdoutData sample_parse ''{"Action":"start"}''
          (listen (tryParseStdoutData sample_parse ''{"Action":'' sample_emitter))) = []\<close>
  using buffer_survives_restart [where chunk = \<open>''{"Action":"start"}''\<close>
      and st = \<open>tryParseStdoutData sample_parse ''{"Action":'' sample_emitter\<close>
      and parse = sample_parse and i = CallListen and fs = "[]"
      and event = "''rename''" and filename = None]
  by (simp add: piece_unfold sample_parse_def sample_emitter_fields listen_fields)




end
